theory Spec2Isabelle
  imports Main
begin

section \<open>Values exchanged with the worker and the host\<close>

text \<open>
  A JavaScript string is carried as its bytes in UTF-8, one \<open>char\<close> per byte; an unpaired
  surrogate, which UTF-8 proper excludes, as the three bytes the same scheme gives its
  code unit. Where the source counts or classifies UTF-16 code units (\<open>trim\<close>,
  \<open>slice\<close>, the escapes of \<open>JSON.stringify\<close>) the model reads them off the bytes.
\<close>

text \<open>
  A parsed JSON value, as \<open>response.json()\<close> yields it. A number is carried by the text
  JavaScript renders it with (the program never computes with one, it only serialises it);
  an object is the list of its properties in enumeration order.
\<close>

datatype json =
    JNull
  | JBool bool
  | JNum string
  | JStr string
  | JArr "json list"
  | JObj "(string \<times> json) list"

text \<open>A thrown JavaScript error: its \<open>name\<close> and its \<open>message\<close>.\<close>

datatype exn = Exn string string

text \<open>The template \<open>`${e}`\<close> of an error, following \<open>Error.prototype.toString\<close>.\<close>

fun exn_to_string :: "exn \<Rightarrow> string" where
  "exn_to_string (Exn name msg) =
     (if name = [] then msg else if msg = [] then name else name @ '': '' @ msg)"

subsection \<open>\<open>JSON.stringify(data, null, 2)\<close>\<close>

definition hex_digit :: "nat \<Rightarrow> char" where
  "hex_digit n = (if n < 10 then char_of (48 + n) else char_of (87 + n))"

definition escape_char :: "char \<Rightarrow> string" where
  "escape_char c =
     (if c = CHR 0x22 then [CHR 0x5C, CHR 0x22]
      else if c = CHR 0x5C then [CHR 0x5C, CHR 0x5C]
      else if c = CHR 0x08 then [CHR 0x5C, CHR ''b'']
      else if c = CHR 0x0C then [CHR 0x5C, CHR ''f'']
      else if c = CHR 0x0A then [CHR 0x5C, CHR ''n'']
      else if c = CHR 0x0D then [CHR 0x5C, CHR ''r'']
      else if c = CHR 0x09 then [CHR 0x5C, CHR ''t'']
      else if (of_char c :: nat) < 32
        then [CHR 0x5C, CHR ''u'', CHR ''0'', CHR ''0'',
              hex_digit ((of_char c :: nat) div 16), hex_digit ((of_char c :: nat) mod 16)]
      else [c])"

definition hex4 :: "nat \<Rightarrow> string" where
  "hex4 n =
     [hex_digit (n div 4096 mod 16), hex_digit (n div 256 mod 16),
      hex_digit (n div 16 mod 16), hex_digit (n mod 16)]"

text \<open>
  The characters between the quotes. The bytes \<open>ED A0..BF xx\<close> are an unpaired
  surrogate, which \<open>JSON.stringify\<close> writes as an escape of four hexadecimal digits;
  every other byte above \<open>7F\<close> belongs to a character that is copied.
\<close>

fun escape :: "string \<Rightarrow> string" where
  "escape (b # b1 # b2 # rest) =
     (if b = CHR 0xED \<and> 160 \<le> (of_char b1 :: nat)
      then [CHR 0x5C, CHR ''u'']
           @ hex4 (53248 + (of_char b1 :: nat) mod 64 * 64 + (of_char b2 :: nat) mod 64)
           @ escape rest
      else escape_char b @ escape (b1 # b2 # rest))"
| "escape (b # bs) = escape_char b @ escape bs"
| "escape [] = []"

definition quote :: "string \<Rightarrow> string" where
  "quote s = [CHR 0x22] @ escape s @ [CHR 0x22]"

text \<open>\<open>Array.prototype.join\<close> on strings.\<close>

fun join :: "string \<Rightarrow> string list \<Rightarrow> string" where
  "join sep [] = []"
| "join sep [x] = x"
| "join sep (x # y # ys) = x @ sep @ join sep (y # ys)"

text \<open>
  The serialisation with a gap of two spaces; the first argument is the indentation
  of the enclosing value.
\<close>

fun stringify_at :: "string \<Rightarrow> json \<Rightarrow> string" where
  "stringify_at ind JNull = ''null''"
| "stringify_at ind (JBool b) = (if b then ''true'' else ''false'')"
| "stringify_at ind (JNum t) = t"
| "stringify_at ind (JStr s) = quote s"
| "stringify_at ind (JArr xs) =
     (if xs = [] then ''[]''
      else ''['' @ [CHR 0x0A]
           @ join ('','' @ [CHR 0x0A]) (map (\<lambda>x. (ind @ ''  '') @ stringify_at (ind @ ''  '') x) xs)
           @ [CHR 0x0A] @ ind @ '']'')"
| "stringify_at ind (JObj kvs) =
     (if kvs = [] then ''{}''
      else ''{'' @ [CHR 0x0A]
           @ join ('','' @ [CHR 0x0A])
               (map (\<lambda>kv. (ind @ ''  '') @ quote (fst kv) @ '': '' @ stringify_at (ind @ ''  '') (snd kv)) kvs)
           @ [CHR 0x0A] @ ind @ ''}'')"

definition JSON_stringify :: "json \<Rightarrow> string" where
  "JSON_stringify data = stringify_at [] data"

subsection \<open>Requests, replies and the trace of external effects\<close>

text \<open>
  The requests of \<open>WorkerClient\<close>, one constructor per endpoint, with the fields the
  client puts into the query or the body.
\<close>

datatype request =
    Health
  | Sessions_init string string string
  | Sessions_observations string string json json string
  | Sessions_summarize string string string
  | Sessions_complete string
  | Context_inject string
  | Search string string

text \<open>
  What \<open>fetch\<close> does: it rejects with an error, or resolves to a response with its
  \<open>ok\<close> flag and what \<open>response.json()\<close> will do (reject, or the parsed body).
\<close>

datatype reply =
    Network_error exn
  | Response bool "exn + json"

datatype variant = Info | Success | Warning | Error_variant

text \<open>A message of the host's history: \<open>info.role\<close> and \<open>parts\<close>.\<close>

record part =
  part_type :: string
  part_text :: "string option"

record message =
  role :: string
  parts :: "part list option"

text \<open>
  Everything the plugin does to the outside, in order: HTTP requests with the reply
  received, toasts (message, variant, duration), status messages sent into a session,
  and reads of a session's message history.
\<close>

datatype effect =
    Http request reply
  | Toast string variant nat
  | Session_prompt string string
  | Session_messages string

text \<open>
  The outside world as the plugin sees it: each reply may depend on everything that
  happened before.
\<close>

record env =
  fetch :: "effect list \<Rightarrow> request \<Rightarrow> reply"
  tui_showToast :: "effect list \<Rightarrow> string \<Rightarrow> variant \<Rightarrow> nat \<Rightarrow> exn option"
  client_session_prompt :: "effect list \<Rightarrow> string \<Rightarrow> string \<Rightarrow> exn option"
  client_session_messages :: "effect list \<Rightarrow> string \<Rightarrow> exn + message list option"

section \<open>Asynchronous computations\<close>

text \<open>
  The body of an \<open>async\<close> function over a state \<open>'s\<close>: it ends with a value or a thrown
  error, reads the state, changes it, or reaches an \<open>await\<close>, where it is suspended and
  other calls may run before it goes on. Nothing else can run between two \<open>await\<close>s.
\<close>

datatype ('s, 'a) task =
    Done "exn + 'a"
  | Read "'s \<Rightarrow> ('s, 'a) task"
  | Write "'s \<Rightarrow> 's" "('s, 'a) task"
  | Await "('s, 'a) task"

definition ret :: "'a \<Rightarrow> ('s, 'a) task" where
  "ret x = Done (Inr x)"

definition throw :: "exn \<Rightarrow> ('s, 'a) task" where
  "throw e = Done (Inl e)"

definition gets :: "('s \<Rightarrow> 'a) \<Rightarrow> ('s, 'a) task" where
  "gets f = Read (\<lambda>s. Done (Inr (f s)))"

definition modify :: "('s \<Rightarrow> 's) \<Rightarrow> ('s, unit) task" where
  "modify f = Write f (Done (Inr ()))"

text \<open>Sequencing: an error thrown by the first part skips the second.\<close>

primrec bnd :: "('s, 'a) task \<Rightarrow> ('a \<Rightarrow> ('s, 'b) task) \<Rightarrow> ('s, 'b) task" where
  "bnd (Done r) f = (case r of Inl e \<Rightarrow> Done (Inl e) | Inr x \<Rightarrow> f x)"
| "bnd (Read k) f = Read (\<lambda>s. bnd (k s) f)"
| "bnd (Write w t) f = Write w (bnd t f)"
| "bnd (Await t) f = Await (bnd t f)"

text \<open>\<open>try { m } catch (e) { h e }\<close>.\<close>

primrec try_catch :: "('s, 'a) task \<Rightarrow> (exn \<Rightarrow> ('s, 'a) task) \<Rightarrow> ('s, 'a) task" where
  "try_catch (Done r) h = (case r of Inl e \<Rightarrow> h e | Inr x \<Rightarrow> Done (Inr x))"
| "try_catch (Read k) h = Read (\<lambda>s. try_catch (k s) h)"
| "try_catch (Write w t) h = Write w (try_catch t h)"
| "try_catch (Await t) h = Await (try_catch t h)"

text \<open>
  \<open>await m\<close>: the operand runs (with the \<open>await\<close>s of its own when it is the call of an
  \<open>async\<close> function), then the caller is suspended before it receives the value or the
  error.
\<close>

primrec await :: "('s, 'a) task \<Rightarrow> ('s, 'a) task" where
  "await (Done r) = Await (Done r)"
| "await (Read k) = Read (\<lambda>s. await (k s))"
| "await (Write w t) = Write w (await t)"
| "await (Await t) = Await (await t)"

text \<open>
  A call that no other call overlaps: its parts run one after the other, from the state
  the call starts in to the result and the state it ends in.
\<close>

primrec run :: "('s, 'a) task \<Rightarrow> 's \<Rightarrow> (exn + 'a) \<times> 's" where
  "run (Done r) = (\<lambda>s. (r, s))"
| "run (Read k) = (\<lambda>s. run (k s) s)"
| "run (Write w t) = (\<lambda>s. run t (w s))"
| "run (Await t) = (\<lambda>s. run t s)"

text \<open>
  One turn of a call: it runs up to its next \<open>await\<close>, where it is suspended with the
  rest of its body, or to its end.
\<close>

datatype ('s, 'a) progress = Finished "exn + 'a" | Suspended "('s, 'a) task"

primrec advance :: "('s, 'a) task \<Rightarrow> 's \<Rightarrow> ('s, 'a) progress \<times> 's" where
  "advance (Done r) = (\<lambda>s. (Finished r, s))"
| "advance (Read k) = (\<lambda>s. advance (k s) s)"
| "advance (Write w t) = (\<lambda>s. advance t (w s))"
| "advance (Await t) = (\<lambda>s. (Suspended t, s))"

text \<open>
  Calls that overlap: a schedule names, turn by turn, the call that runs next (its first
  turn starts it); a call that has ended stays ended, and a turn for a call that is not
  there is skipped.
\<close>

fun interleave :: "nat list \<Rightarrow> ('s, 'a) task list \<Rightarrow> 's \<Rightarrow> ('s, 'a) task list \<times> 's" where
  "interleave [] pool s = (pool, s)"
| "interleave (i # turns) pool s =
     (if i < length pool
      then (case advance (pool ! i) s of
              (Finished r, s') \<Rightarrow> interleave turns (pool[i := Done r]) s'
            | (Suspended t, s') \<Rightarrow> interleave turns (pool[i := t]) s')
      else interleave turns pool s)"

section \<open>The worker client\<close>

text \<open>
  \<open>fetch\<close> sends the request, and the reply is fixed then; the caller receives it, or the
  error, after its \<open>await\<close>. The same holds for the calls of the host's client below.
\<close>

definition do_fetch :: "env \<Rightarrow> request \<Rightarrow> (effect list, bool \<times> (exn + json)) task" where
  "do_fetch e req =
     Read (\<lambda>tr.
       Write (\<lambda>t. t @ [Http req (fetch e tr req)])
         (Done (case fetch e tr req of
                  Network_error err \<Rightarrow> Inl err
                | Response ok body \<Rightarrow> Inr (ok, body))))"

definition response_json :: "exn + json \<Rightarrow> (effect list, json) task" where
  "response_json body = Done body"

definition isHealthy :: "env \<Rightarrow> (effect list, bool) task" where
  "isHealthy e =
     try_catch
       (bnd (await (do_fetch e Health)) (\<lambda>response. ret (fst response)))
       (\<lambda>err. ret False)"

definition sessionInit :: "env \<Rightarrow> string \<Rightarrow> string \<Rightarrow> string \<Rightarrow> (effect list, json option) task" where
  "sessionInit e contentSessionId project prompt =
     try_catch
       (bnd (await (do_fetch e (Sessions_init contentSessionId project prompt))) (\<lambda>response.
          if \<not> fst response then ret None
          else bnd (await (response_json (snd response))) (\<lambda>data. ret (Some data))))
       (\<lambda>err. ret None)"

definition sendObservation ::
  "env \<Rightarrow> string \<Rightarrow> string \<Rightarrow> json \<Rightarrow> json \<Rightarrow> string \<Rightarrow> (effect list, unit) task" where
  "sendObservation e contentSessionId toolName toolInput toolResponse cwd =
     try_catch
       (bnd (await (do_fetch e
                 (Sessions_observations contentSessionId toolName toolInput toolResponse cwd)))
          (\<lambda>response. ret ()))
       (\<lambda>err. ret ())"

definition summarize :: "env \<Rightarrow> string \<Rightarrow> string \<Rightarrow> string \<Rightarrow> (effect list, unit) task" where
  "summarize e contentSessionId lastUserMessage lastAssistantMessage =
     try_catch
       (bnd (await (do_fetch e
                 (Sessions_summarize contentSessionId lastUserMessage lastAssistantMessage)))
          (\<lambda>response. ret ()))
       (\<lambda>err. ret ())"

definition completeSession :: "env \<Rightarrow> string \<Rightarrow> (effect list, unit) task" where
  "completeSession e contentSessionId =
     try_catch
       (bnd (await (do_fetch e (Sessions_complete contentSessionId))) (\<lambda>response. ret ()))
       (\<lambda>err. ret ())"

text \<open>
  \<open>getContext\<close>: a string body is returned as it is, a value with a string property
  \<open>content\<close> gives that string, anything else is serialised, and the serialisations
  \<open>{}\<close> and \<open>null\<close> give \<open>null\<close> (here \<open>None\<close>). Only an object read from
  JSON has a property \<open>content\<close>; its keys are distinct, so \<open>map_of\<close> reads it.
\<close>

definition get_property :: "json \<Rightarrow> string \<Rightarrow> json option" where
  "get_property data k = (case data of JObj kvs \<Rightarrow> map_of kvs k | _ \<Rightarrow> None)"

definition context_of_data :: "json \<Rightarrow> string option" where
  "context_of_data data =
     (case data of
        JStr s \<Rightarrow> Some s
      | _ \<Rightarrow>
          (case get_property data ''content'' of
             Some (JStr c) \<Rightarrow> Some c
           | _ \<Rightarrow> (let text = JSON_stringify data
                   in if text = ''{}'' \<or> text = ''null'' then None else Some text)))"

definition getContext :: "env \<Rightarrow> string \<Rightarrow> (effect list, string option) task" where
  "getContext e project =
     try_catch
       (bnd (await (do_fetch e (Context_inject project))) (\<lambda>response.
          if \<not> fst response then ret None
          else bnd (await (response_json (snd response))) (\<lambda>data. ret (context_of_data data))))
       (\<lambda>err. ret None)"

definition search :: "env \<Rightarrow> string \<Rightarrow> string \<Rightarrow> (effect list, string) task" where
  "search e query project =
     try_catch
       (bnd (await (do_fetch e (Search query project))) (\<lambda>response.
          if \<not> fst response then ret ''Search failed''
          else bnd (await (response_json (snd response))) (\<lambda>data. ret (JSON_stringify data))))
       (\<lambda>err. ret (''Error performing search: '' @ exn_to_string err))"

section \<open>The plugin\<close>

text \<open>What the host passes to the plugin factory, and \<open>process.cwd()\<close>.\<close>

record ctx =
  worktree :: "string option"
  directory :: "string option"
  process_cwd :: string

text \<open>JavaScript truthiness of an optional string, and \<open>a || b\<close> on two of them.\<close>

definition truthy :: "string option \<Rightarrow> bool" where
  "truthy x = (case x of None \<Rightarrow> False | Some s \<Rightarrow> s \<noteq> [])"

definition or_else :: "string option \<Rightarrow> string option \<Rightarrow> string option" where
  "or_else a b = (if truthy a then a else b)"

definition truthy_value :: "string option \<Rightarrow> string option" where
  "truthy_value x = (if truthy x then x else None)"

fun js_truthy :: "json \<Rightarrow> bool" where
  "js_truthy JNull = False"
| "js_truthy (JBool b) = b"
| "js_truthy (JNum t) = (t \<noteq> ''0'')"
| "js_truthy (JStr s) = (s \<noteq> [])"
| "js_truthy (JArr xs) = True"
| "js_truthy (JObj kvs) = True"

text \<open>\<open>String.prototype.split\<close> on a one-character pattern.\<close>

fun split_on :: "(char \<Rightarrow> bool) \<Rightarrow> string \<Rightarrow> string list" where
  "split_on p [] = [[]]"
| "split_on p (c # cs) =
     (if p c then [] # split_on p cs
      else (case split_on p cs of [] \<Rightarrow> [[c]] | w # ws \<Rightarrow> (c # w) # ws))"

definition findLast :: "('a \<Rightarrow> bool) \<Rightarrow> 'a list \<Rightarrow> 'a option" where
  "findLast p xs = List.find p (rev xs)"

definition projectRoot :: "ctx \<Rightarrow> string" where
  "projectRoot c = (case truthy_value (directory c) of Some d \<Rightarrow> d | None \<Rightarrow> process_cwd c)"

definition projectName :: "ctx \<Rightarrow> string" where
  "projectName c =
     (case truthy_value (worktree c) of
        Some w \<Rightarrow>
          (case findLast (\<lambda>seg. seg \<noteq> []) (split_on (\<lambda>ch. ch = CHR 0x5C \<or> ch = CHR ''/'') w) of
             Some seg \<Rightarrow> seg
           | None \<Rightarrow> ''unknown-project'')
      | None \<Rightarrow> ''unknown-project'')"

text \<open>
  The session tracker: the variables the hooks close over, and the trace of what the
  plugin has done to the outside so far. \<open>contextCache\<close> is \<open>None\<close> when
  \<open>undefined\<close>, \<open>Some None\<close> when \<open>null\<close>; \<open>workerHealthy\<close> is \<open>None\<close> when \<open>null\<close>.
\<close>

record tracker =
  contextCache :: "string option option"
  workerHealthy :: "bool option"
  initToastShown :: bool
  currentSessionId :: "string option"
  initializedSessions :: "string set"
  trace :: "effect list"

definition init_tracker :: tracker where
  "init_tracker =
     \<lparr>contextCache = None, workerHealthy = None, initToastShown = False,
      currentSessionId = None, initializedSessions = {}, trace = []\<rparr>"

text \<open>A computation on the outside world, called from the plugin.\<close>

primrec on_trace :: "(effect list, 'a) task \<Rightarrow> (tracker, 'a) task" where
  "on_trace (Done r) = Done r"
| "on_trace (Read k) = Read (\<lambda>s. on_trace (k (trace s)))"
| "on_trace (Write w t) = Write (\<lambda>s. s\<lparr>trace := w (trace s)\<rparr>) (on_trace t)"
| "on_trace (Await t) = Await (on_trace t)"

definition showToast :: "env \<Rightarrow> string \<Rightarrow> variant \<Rightarrow> nat \<Rightarrow> (effect list, unit) task" where
  "showToast e msg v duration =
     Read (\<lambda>tr.
       Write (\<lambda>t. t @ [Toast msg v duration])
         (Done (case tui_showToast e tr msg v duration of
                  Some err \<Rightarrow> Inl err
                | None \<Rightarrow> Inr ())))"

definition session_prompt :: "env \<Rightarrow> string \<Rightarrow> string \<Rightarrow> (effect list, unit) task" where
  "session_prompt e sessionId txt =
     Read (\<lambda>tr.
       Write (\<lambda>t. t @ [Session_prompt sessionId txt])
         (Done (case client_session_prompt e tr sessionId txt of
                  Some err \<Rightarrow> Inl err
                | None \<Rightarrow> Inr ())))"

definition session_messages :: "env \<Rightarrow> string \<Rightarrow> (effect list, message list option) task" where
  "session_messages e sessionId =
     Read (\<lambda>tr.
       Write (\<lambda>t. t @ [Session_messages sessionId])
         (Done (client_session_messages e tr sessionId)))"

text \<open>
  The literal texts of the plugin. Three of them hold a character outside ASCII
  (a middle dot, an em dash, a warning sign).
\<close>

definition memory_active_text :: "string \<Rightarrow> string" where
  "memory_active_text pname = ''Memory active '' @ [CHR 0xC2, CHR 0xB7] @ '' '' @ pname"

definition worker_offline_text :: string where
  "worker_offline_text =
     ''Worker offline '' @ [CHR 0xE2, CHR 0x80, CHR 0x94] @ '' start Claude Code first''"

definition offline_notice_text :: string where
  "offline_notice_text = [CHR 0xE2, CHR 0x9A, CHR 0xA0] @ '' Claude-Mem worker is offline''"

definition memory_handled :: exn where
  "memory_handled = Exn ''Error'' ''__MEMORY_HANDLED__''"

definition memory_no_session :: exn where
  "memory_no_session = Exn ''Error'' ''__MEMORY_NO_SESSION__''"

definition toast :: "env \<Rightarrow> string \<Rightarrow> variant \<Rightarrow> nat \<Rightarrow> (tracker, unit) task" where
  "toast e msg v duration =
     try_catch (await (on_trace (showToast e msg v duration))) (\<lambda>err. ret ())"

text \<open>
  \<open>text.slice(0, n)\<close>, the first \<open>n\<close> UTF-16 code units: a character of one, two or
  three bytes is one unit; a character of four bytes is two units, and when only one
  unit is left the slice ends with the first half of its surrogate pair.
\<close>

definition sequence_length :: "char \<Rightarrow> nat" where
  "sequence_length b =
     (if (of_char b :: nat) < 128 then 1
      else if (of_char b :: nat) < 224 then 2
      else if (of_char b :: nat) < 240 then 3
      else 4)"

fun high_surrogate :: "string \<Rightarrow> string" where
  "high_surrogate (b0 # b1 # b2 # b3 # rest) =
     (let cp = (of_char b0 :: nat) mod 8 * 262144 + (of_char b1 :: nat) mod 64 * 4096
               + (of_char b2 :: nat) mod 64 * 64 + (of_char b3 :: nat) mod 64;
          hs = 55296 + (cp - 65536) div 1024
      in [char_of (224 + hs div 4096), char_of (128 + hs div 64 mod 64), char_of (128 + hs mod 64)])"
| "high_surrogate bs = bs"

fun slice :: "nat \<Rightarrow> string \<Rightarrow> string" where
  "slice 0 s = []"
| "slice (Suc n) [] = []"
| "slice (Suc n) (b # bs) =
     (if sequence_length b < 4
      then take (sequence_length b) (b # bs) @ slice n (drop (sequence_length b - 1) bs)
      else if n = 0 then high_surrogate (b # bs)
      else take 4 (b # bs) @ slice (n - 1) (drop 3 bs))"

definition sendStatusMessage :: "env \<Rightarrow> string \<Rightarrow> string \<Rightarrow> (tracker, unit) task" where
  "sendStatusMessage e sessionId txt =
     try_catch (await (on_trace (session_prompt e sessionId txt)))
       (\<lambda>err. await (toast e (slice 200 txt) Info 3000))"

definition getCachedContext :: "env \<Rightarrow> ctx \<Rightarrow> (tracker, string option) task" where
  "getCachedContext e c =
     bnd (gets contextCache) (\<lambda>cached.
       case cached of
         Some v \<Rightarrow> ret v
       | None \<Rightarrow>
           bnd (await (on_trace (getContext e (projectName c)))) (\<lambda>context.
           bnd (modify (\<lambda>s. s\<lparr>contextCache := Some context\<rparr>)) (\<lambda>u.
           ret context)))"

definition checkWorkerAndToast :: "env \<Rightarrow> ctx \<Rightarrow> (tracker, bool) task" where
  "checkWorkerAndToast e c =
     bnd (gets workerHealthy) (\<lambda>wh.
     bnd (if wh = None
          then bnd (await (on_trace (isHealthy e))) (\<lambda>h.
               modify (\<lambda>s. s\<lparr>workerHealthy := Some h\<rparr>))
          else ret ()) (\<lambda>u.
     bnd (gets initToastShown) (\<lambda>shown.
     bnd (if \<not> shown
          then bnd (modify (\<lambda>s. s\<lparr>initToastShown := True\<rparr>)) (\<lambda>u.
               bnd (gets workerHealthy) (\<lambda>wh.
               if wh = Some True
               then await (toast e (memory_active_text (projectName c)) Success 3000)
               else await (toast e worker_offline_text Warning 5000)))
          else ret ()) (\<lambda>u.
     bnd (gets workerHealthy) (\<lambda>wh.
     ret (wh = Some True))))))"

definition ensureSessionInit :: "env \<Rightarrow> ctx \<Rightarrow> string \<Rightarrow> string option \<Rightarrow> (tracker, bool) task" where
  "ensureSessionInit e c sessionId prompt =
     bnd (gets initializedSessions) (\<lambda>initialized.
     if sessionId \<in> initialized then ret True
     else
       bnd (await (checkWorkerAndToast e c)) (\<lambda>isHealthy.
       if \<not> isHealthy then ret False
       else
         try_catch
           (bnd (await (on_trace (sessionInit e sessionId (projectName c)
                   (case truthy_value prompt of Some p \<Rightarrow> p | None \<Rightarrow> ''SESSION_START'')))) (\<lambda>r.
            bnd (modify (\<lambda>s. s\<lparr>initializedSessions := insert sessionId (initializedSessions s)\<rparr>)) (\<lambda>u.
            bnd (modify (\<lambda>s. s\<lparr>currentSessionId := Some sessionId\<rparr>)) (\<lambda>u.
            ret True))))
           (\<lambda>err. ret False)))"

text \<open>
  \<open>String.prototype.trim\<close>: the white space and line terminators of JavaScript
  (U+0009 to U+000D, U+0020, U+00A0, U+1680, U+2000 to U+200A, U+2028, U+2029, U+202F,
  U+205F, U+3000, U+FEFF), each as its bytes, are removed from both ends.
\<close>

definition white_space :: "string list" where
  "white_space =
     [[CHR 0x09], [CHR 0x0A], [CHR 0x0B], [CHR 0x0C], [CHR 0x0D], [CHR 0x20],
      [CHR 0xC2, CHR 0xA0], [CHR 0xE1, CHR 0x9A, CHR 0x80],
      [CHR 0xE2, CHR 0x80, CHR 0x80], [CHR 0xE2, CHR 0x80, CHR 0x81],
      [CHR 0xE2, CHR 0x80, CHR 0x82], [CHR 0xE2, CHR 0x80, CHR 0x83],
      [CHR 0xE2, CHR 0x80, CHR 0x84], [CHR 0xE2, CHR 0x80, CHR 0x85],
      [CHR 0xE2, CHR 0x80, CHR 0x86], [CHR 0xE2, CHR 0x80, CHR 0x87],
      [CHR 0xE2, CHR 0x80, CHR 0x88], [CHR 0xE2, CHR 0x80, CHR 0x89],
      [CHR 0xE2, CHR 0x80, CHR 0x8A], [CHR 0xE2, CHR 0x80, CHR 0xA8],
      [CHR 0xE2, CHR 0x80, CHR 0xA9], [CHR 0xE2, CHR 0x80, CHR 0xAF],
      [CHR 0xE2, CHR 0x81, CHR 0x9F], [CHR 0xE3, CHR 0x80, CHR 0x80],
      [CHR 0xEF, CHR 0xBB, CHR 0xBF]]"

definition starts_with :: "string \<Rightarrow> string \<Rightarrow> bool" where
  "starts_with w s = (take (length w) s = w)"

fun strip :: "string list \<Rightarrow> string \<Rightarrow> string" where
  "strip ws [] = []"
| "strip ws (b # bs) =
     (case List.find (\<lambda>w. starts_with w (b # bs)) ws of
        None \<Rightarrow> b # bs
      | Some w \<Rightarrow> strip ws (drop (length w - 1) bs))"

definition trim :: "string \<Rightarrow> string" where
  "trim s = rev (strip (map rev white_space) (rev (strip white_space s)))"

definition extractTextFromParts :: "part list option \<Rightarrow> string" where
  "extractTextFromParts ps =
     (case ps of
        None \<Rightarrow> []
      | Some xs \<Rightarrow>
          trim (join [CHR 0x0A]
            (map (\<lambda>p. case part_text p of Some t \<Rightarrow> t | None \<Rightarrow> [])
               (filter (\<lambda>p. part_type p = ''text'' \<and> part_text p \<noteq> None) xs))))"

text \<open>
  The loop \<open>for (let i = messages.length - 1; i >= 0; i--)\<close> of the idle handler, on the
  messages from the last to the first: the first message of the role gives the text,
  and the initial value stays when there is none.
\<close>

fun scan_back :: "string \<Rightarrow> message list \<Rightarrow> string \<Rightarrow> string" where
  "scan_back r [] current = current"
| "scan_back r (m # ms) current =
     (if role m = r then extractTextFromParts (parts m) else scan_back r ms current)"

subsection \<open>The hooks\<close>

text \<open>Hook \<open>config\<close>: registers the \<open>/memory\<close> command (template, description).\<close>

definition config :: "(string \<rightharpoonup> string \<times> string) option \<Rightarrow> (string \<rightharpoonup> string \<times> string)" where
  "config commands =
     (case commands of None \<Rightarrow> Map.empty | Some m \<Rightarrow> m)
       (''memory'' \<mapsto> (''/memory'', ''Show memory context from Claude-Mem''))"

text \<open>Hook \<open>command.execute.before\<close>, on \<open>input.command\<close> and \<open>input.sessionID\<close>.\<close>

definition command_execute_before ::
  "env \<Rightarrow> ctx \<Rightarrow> string \<Rightarrow> string option \<Rightarrow> (tracker, unit) task" where
  "command_execute_before e c command sessionID =
     (if command \<noteq> ''memory'' then ret ()
      else
        bnd (gets currentSessionId) (\<lambda>current.
        case truthy_value (or_else sessionID current) of
          None \<Rightarrow> throw memory_no_session
        | Some sessionId \<Rightarrow>
            bnd (await (checkWorkerAndToast e c)) (\<lambda>isHealthy.
            if \<not> isHealthy
            then bnd (await (sendStatusMessage e sessionId offline_notice_text)) (\<lambda>u.
                 throw memory_handled)
            else
              bnd (await (getCachedContext e c)) (\<lambda>context.
              bnd (case truthy_value context of
                     Some txt \<Rightarrow> await (sendStatusMessage e sessionId txt)
                   | None \<Rightarrow>
                       await (sendStatusMessage e sessionId
                         (''No memory context available for '' @ projectName c))) (\<lambda>u.
              throw memory_handled)))))"

text \<open>
  An event of the host: \<open>event.type\<close>, \<open>event.properties?.info?.id\<close> and
  \<open>event.properties?.sessionID\<close>.
\<close>

record event =
  event_type :: string
  info_id :: "string option"
  event_sessionID :: "string option"

definition session_idle :: "env \<Rightarrow> event \<Rightarrow> (tracker, unit) task" where
  "session_idle e ev =
     (if event_type ev = ''session.idle''
      then
        bnd (gets currentSessionId) (\<lambda>current.
        case truthy_value (or_else (event_sessionID ev) current) of
          None \<Rightarrow> ret ()
        | Some sessionId \<Rightarrow>
            try_catch
              (bnd (try_catch
                      (bnd (await (on_trace (session_messages e sessionId))) (\<lambda>result_data.
                         case result_data of
                           Some messages \<Rightarrow>
                             ret (scan_back ''user'' (rev messages) [],
                                  scan_back ''assistant'' (rev messages) [])
                         | None \<Rightarrow> ret ([], [])))
                      (\<lambda>err. ret ([], []))) (\<lambda>found.
               bnd (await (on_trace (summarize e sessionId (fst found) (snd found)))) (\<lambda>u.
               bnd (await (on_trace (completeSession e sessionId))) (\<lambda>u.
               await (toast e ''Session summarized'' Success 2000)))))
              (\<lambda>err. ret ()))
      else ret ())"

definition event_hook :: "env \<Rightarrow> ctx \<Rightarrow> event \<Rightarrow> (tracker, unit) task" where
  "event_hook e c ev =
     (if event_type ev = ''session.created''
      then
        (case truthy_value (info_id ev) of
           None \<Rightarrow> ret ()
         | Some sessionId \<Rightarrow>
             bnd (modify (\<lambda>s. s\<lparr>currentSessionId := Some sessionId\<rparr>)) (\<lambda>u.
             bnd (modify (\<lambda>s. s\<lparr>contextCache := None\<rparr>)) (\<lambda>u.
             bnd (await (checkWorkerAndToast e c)) (\<lambda>h.
             session_idle e ev))))
      else session_idle e ev)"

text \<open>Hook \<open>chat.message\<close>, on \<open>input.sessionID\<close> and \<open>output.parts\<close>.\<close>

definition chat_message :: "env \<Rightarrow> ctx \<Rightarrow> string option \<Rightarrow> part list option \<Rightarrow> (tracker, unit) task" where
  "chat_message e c sessionID ps =
     (case truthy_value sessionID of
        Some sessionId \<Rightarrow>
          bnd (await (ensureSessionInit e c sessionId
                        (truthy_value (Some (extractTextFromParts ps)))))
            (\<lambda>r. ret ())
      | None \<Rightarrow> ret ())"

text \<open>
  Hook \<open>experimental.chat.system.transform\<close>, on \<open>input.sessionID\<close> and
  \<open>output.system\<close>; the result is \<open>output.system\<close> afterwards.
\<close>

definition system_transform ::
  "env \<Rightarrow> ctx \<Rightarrow> string option \<Rightarrow> string list \<Rightarrow> (tracker, string list) task" where
  "system_transform e c sessionID system =
     bnd (case truthy_value sessionID of
            Some sessionId \<Rightarrow> bnd (await (ensureSessionInit e c sessionId None)) (\<lambda>r. ret ())
          | None \<Rightarrow> ret ()) (\<lambda>u.
     bnd (await (checkWorkerAndToast e c)) (\<lambda>isHealthy.
     if \<not> isHealthy then ret system
     else
       try_catch
         (bnd (await (getCachedContext e c)) (\<lambda>context.
            case truthy_value context of
              Some txt \<Rightarrow>
                ret (system @
                  [''[Claude-Mem] Memory Active. Previous Context:'' @ [CHR 0x0A] @ txt])
            | None \<Rightarrow> ret system))
         (\<lambda>err. ret system)))"

text \<open>
  Hook \<open>tool.execute.after\<close>, on \<open>input.sessionID\<close>, \<open>input.tool\<close>, \<open>input.args\<close>
  and \<open>output.output\<close>.
\<close>

definition tool_execute_after ::
  "env \<Rightarrow> ctx \<Rightarrow> string option \<Rightarrow> string \<Rightarrow> json option \<Rightarrow> json \<Rightarrow> (tracker, unit) task" where
  "tool_execute_after e c sessionID tool args output =
     bnd (gets currentSessionId) (\<lambda>current.
     case truthy_value (or_else sessionID current) of
       None \<Rightarrow> ret ()
     | Some sessionId \<Rightarrow>
         bnd (await (ensureSessionInit e c sessionId None)) (\<lambda>r.
         try_catch
           (await (on_trace (sendObservation e sessionId tool
              (case args of
                 Some a \<Rightarrow> (if js_truthy a then a else JObj [])
               | None \<Rightarrow> JObj [])
              output (projectRoot c))))
           (\<lambda>err. ret ())))"

text \<open>The tool \<open>mem-search\<close>.\<close>

definition mem_search :: "env \<Rightarrow> ctx \<Rightarrow> string \<Rightarrow> (tracker, string) task" where
  "mem_search e c query = await (on_trace (search e query (projectName c)))"

text \<open>A call of the host into the plugin, and its task, the result dropped.\<close>

datatype hook_call =
    Config
  | Command_execute_before string "string option"
  | Event event
  | Chat_message "string option" "part list option"
  | System_transform "string option" "string list"
  | Tool_execute_after "string option" string "json option" json
  | Mem_search string

definition forget :: "('s, 'a) task \<Rightarrow> ('s, unit) task" where
  "forget m = bnd m (\<lambda>x. ret ())"

fun hook_task :: "env \<Rightarrow> ctx \<Rightarrow> hook_call \<Rightarrow> (tracker, unit) task" where
  "hook_task e c Config = ret ()"
| "hook_task e c (Command_execute_before command sessionID) =
     command_execute_before e c command sessionID"
| "hook_task e c (Event ev) = event_hook e c ev"
| "hook_task e c (Chat_message sessionID ps) = chat_message e c sessionID ps"
| "hook_task e c (System_transform sessionID system) =
     forget (system_transform e c sessionID system)"
| "hook_task e c (Tool_execute_after sessionID tool args output) =
     tool_execute_after e c sessionID tool args output"
| "hook_task e c (Mem_search query) = forget (mem_search e c query)"

text \<open>
  The tracker after a hook call that nothing overlaps, and after a sequence of hook
  calls of which each has ended before the next starts.
\<close>

definition after_hook :: "env \<Rightarrow> ctx \<Rightarrow> hook_call \<Rightarrow> tracker \<Rightarrow> tracker" where
  "after_hook e c h s = snd (run (hook_task e c h) s)"

fun after_hooks :: "env \<Rightarrow> ctx \<Rightarrow> hook_call list \<Rightarrow> tracker \<Rightarrow> tracker" where
  "after_hooks e c [] s = s"
| "after_hooks e c (h # hs) s = after_hooks e c hs (after_hook e c h s)"


section \<open>Observations on traces and runs\<close>

text \<open>
  Kinds of effects the properties below count in a trace: a health probe, a context
  fetch, the start-up toast of \<open>checkWorkerAndToast\<close> (in either of its two forms),
  an initialisation request for a session, and one that the worker answered with an
  \<open>ok\<close> response whose body parsed (so that \<open>sessionInit\<close> returned a result).
\<close>

definition is_health_probe :: "effect \<Rightarrow> bool" where
  "is_health_probe ev = (case ev of Http req r \<Rightarrow> req = Health | _ \<Rightarrow> False)"

definition is_context_fetch :: "effect \<Rightarrow> bool" where
  "is_context_fetch ev =
     (case ev of Http req r \<Rightarrow> (case req of Context_inject p \<Rightarrow> True | _ \<Rightarrow> False) | _ \<Rightarrow> False)"

definition is_init_toast :: "ctx \<Rightarrow> effect \<Rightarrow> bool" where
  "is_init_toast c ev =
     (ev = Toast (memory_active_text (projectName c)) Success 3000
      \<or> ev = Toast worker_offline_text Warning 5000)"



text \<open>
  A hook call invalidates the context cache when it is a \<open>session.created\<close> event
  that carries a (truthy) session identifier.
\<close>

definition invalidates_cache :: "hook_call \<Rightarrow> bool" where
  "invalidates_cache h =
     (case h of Event ev \<Rightarrow> event_type ev = ''session.created'' \<and> truthy (info_id ev) | _ \<Rightarrow> False)"


text \<open>
  The two halves of a call of \<open>checkWorkerAndToast\<close> that nothing overlaps, as state
  transformers: the tracker after the lazy health probe, and after the deferred toast.
\<close>

definition probed :: "env \<Rightarrow> tracker \<Rightarrow> tracker" where
  "probed e s =
     (case workerHealthy s of
        None \<Rightarrow>
          s\<lparr>workerHealthy :=
               Some (case fetch e (trace s) Health of Network_error err \<Rightarrow> False
                     | Response ok body \<Rightarrow> ok),
            trace := trace s @ [Http Health (fetch e (trace s) Health)]\<rparr>
      | Some b \<Rightarrow> s)"

definition toasted :: "env \<Rightarrow> ctx \<Rightarrow> tracker \<Rightarrow> tracker" where
  "toasted e c s =
     (if initToastShown s then s
      else s\<lparr>initToastShown := True,
             trace := trace s @
               [if workerHealthy s = Some True
                then Toast (memory_active_text (projectName c)) Success 3000
                else Toast worker_offline_text Warning 5000]\<rparr>)"

text \<open>
  Vocabulary for invariants of calls that nothing overlaps: a task preserves a property
  of the state; a task changes the tracker only by appending effects of some kind; a
  property is insensitive to appended effects of some kind. An effect is harmless when
  it is none of the three kinds that the memoised flags guard.
\<close>

definition preserves :: "('s \<Rightarrow> bool) \<Rightarrow> ('s, 'a) task \<Rightarrow> bool" where
  "preserves I m = (\<forall>s. I s \<longrightarrow> I (snd (run m s)))"

definition appends :: "(effect \<Rightarrow> bool) \<Rightarrow> (tracker, 'a) task \<Rightarrow> bool" where
  "appends A m = (\<forall>s. \<exists>evs. snd (run m s) = s\<lparr>trace := trace s @ evs\<rparr> \<and> list_all A evs)"

definition absorbs :: "(tracker \<Rightarrow> bool) \<Rightarrow> (effect \<Rightarrow> bool) \<Rightarrow> bool" where
  "absorbs I A = (\<forall>s evs. I s \<longrightarrow> list_all A evs \<longrightarrow> I (s\<lparr>trace := trace s @ evs\<rparr>))"

definition harmless :: "ctx \<Rightarrow> effect \<Rightarrow> bool" where
  "harmless c ev = (\<not> is_health_probe ev \<and> \<not> is_init_toast c ev \<and> \<not> is_context_fetch ev)"

subsection \<open>Concrete inputs\<close>

text \<open>
  A project, four workers (unreachable; healthy but refusing every request after the
  health check; healthy and answering; answering the first health check only), a message
  history, two events, the tracker after a \<open>session.created\<close> event with the worker
  unreachable and with the worker answering, and the tracker after an initialisation
  that the worker refused.
\<close>

definition example_ctx :: ctx where
  "example_ctx = \<lparr>worktree = Some ''/home/dev/repo'', directory = Some ''/home/dev/repo'', process_cwd = ''/''\<rparr>"

definition offline_env :: env where
  "offline_env =
     \<lparr>fetch = (\<lambda>tr req. Network_error (Exn ''TypeError'' ''fetch failed'')),
      tui_showToast = (\<lambda>tr msg v d. None),
      client_session_prompt = (\<lambda>tr sid txt. None),
      client_session_messages = (\<lambda>tr sid. Inr None)\<rparr>"

definition init_failing_env :: env where
  "init_failing_env =
     \<lparr>fetch = (\<lambda>tr req. case req of Health \<Rightarrow> Response True (Inr (JObj []))
                          | _ \<Rightarrow> Response False (Inr JNull)),
      tui_showToast = (\<lambda>tr msg v d. None),
      client_session_prompt = (\<lambda>tr sid txt. None),
      client_session_messages = (\<lambda>tr sid. Inr None)\<rparr>"

definition text_message :: "string \<Rightarrow> string \<Rightarrow> message" where
  "text_message r txt = \<lparr>role = r, parts = Some [\<lparr>part_type = ''text'', part_text = Some txt\<rparr>]\<rparr>"

definition example_history :: "message list" where
  "example_history =
     [text_message ''user'' ''a'', text_message ''assistant'' ''x'',
      text_message ''user'' ''b'', text_message ''assistant'' ''y'']"

definition online_env :: env where
  "online_env =
     \<lparr>fetch = (\<lambda>tr req. case req of Context_inject p \<Rightarrow> Response True (Inr (JObj []))
                          | Search q p \<Rightarrow> Response True (Inr (JArr []))
                          | _ \<Rightarrow> Response True (Inr (JObj [(''sessionDbId'', JNum ''1''), (''promptNumber'', JNum ''1'')]))),
      tui_showToast = (\<lambda>tr msg v d. None),
      client_session_prompt = (\<lambda>tr sid txt. None),
      client_session_messages = (\<lambda>tr sid. Inr (Some example_history))\<rparr>"


definition session_created_s1 :: event where
  "session_created_s1 =
     \<lparr>event_type = ''session.created'', info_id = Some ''s1'', event_sessionID = None\<rparr>"

definition session_idle_s1 :: event where
  "session_idle_s1 =
     \<lparr>event_type = ''session.idle'', info_id = None, event_sessionID = Some ''s1''\<rparr>"



definition failed_init_tracker :: tracker where
  "failed_init_tracker =
     \<lparr>contextCache = None, workerHealthy = Some True, initToastShown = True,
      currentSessionId = Some ''s1'', initializedSessions = {''s1''},
      trace = [Http Health (Response True (Inr (JObj []))),
               Toast (memory_active_text ''repo'') Success 3000,
               Http (Sessions_init ''s1'' ''repo'' ''fix the bug'') (Response False (Inr JNull))]\<rparr>"

section \<open>Calls that nothing overlaps\<close>

text \<open>
  What \<open>run\<close> makes of the parts of a task.
\<close>

lemma run_ret: "run (ret x) s = (Inr x, s)"
  by (simp add: ret_def)

lemma run_throw: "run (throw x) s = (Inl x, s)"
  by (simp add: throw_def)

lemma run_gets: "run (gets f) s = (Inr (f s), s)"
  by (simp add: gets_def)

lemma run_modify: "run (modify f) s = (Inr (), f s)"
  by (simp add: modify_def)

lemma run_bnd:
  "run (bnd m f) s =
     (case run m s of (Inl err, s') \<Rightarrow> (Inl err, s') | (Inr x, s') \<Rightarrow> run (f x) s')"
  by (induction m arbitrary: s) (auto split: sum.splits)

lemma run_try_catch:
  "run (try_catch m h) s =
     (case run m s of (Inl err, s') \<Rightarrow> run (h err) s' | (Inr x, s') \<Rightarrow> (Inr x, s'))"
  by (induction m arbitrary: s) (auto split: sum.splits)

lemma run_await: "run (await m) s = run m s"
  by (induction m arbitrary: s) auto

lemma run_on_trace:
  "run (on_trace m) s = (case run m (trace s) of (r, tr') \<Rightarrow> (r, s\<lparr>trace := tr'\<rparr>))"
  by (induction m arbitrary: s) auto

lemma run_forget:
  "run (forget m) s = (case run m s of (Inl err, s') \<Rightarrow> (Inl err, s') | (Inr x, s') \<Rightarrow> (Inr (), s'))"
  by (simp add: forget_def run_bnd run_ret split: prod.splits sum.splits)

text \<open>
  A call that nothing overlaps is the call given every turn until it ends.
\<close>

lemma run_advance:
  "run m s = (case advance m s of (Finished r, s') \<Rightarrow> (r, s') | (Suspended m', s') \<Rightarrow> run m' s')"
  by (induction m arbitrary: s) auto

text \<open>
  In particular a call that is alone, given turn after turn, ends with the result and in
  the state of \<open>run\<close>.
\<close>

lemma interleave_step:
  "interleave (0 # turns) [m] s =
     (case advance m s of
        (Finished r, s') \<Rightarrow> interleave turns [Done r] s'
      | (Suspended t, s') \<Rightarrow> interleave turns [t] s')"
  by (simp split: prod.splits progress.splits)

lemma interleave_done: "interleave (replicate n 0) [Done r] s = ([Done r], s)"
  by (induction n) simp_all

lemma interleave_no_turn: "interleave [] pool s = (pool, s)"
  by simp

lemma interleave_alone:
  "\<exists>n. interleave (replicate (Suc n) 0) [m] s = ([Done (fst (run m s))], snd (run m s))"
proof (induction m arbitrary: s)
  case (Done r)
  show ?case
    by (intro exI [of _ 0]) (simp add: interleave_step interleave_done interleave_no_turn del: interleave.simps)
next
  case (Read k)
  from Read [of "k s" s] obtain n
    where "interleave (replicate (Suc n) 0) [k s] s = ([Done (fst (run (k s) s))], snd (run (k s) s))"
    by auto
  then show ?case
    by (intro exI [of _ n]) (simp add: interleave_step interleave_done interleave_no_turn del: interleave.simps)
next
  case (Write w m)
  from Write [of "w s"] obtain n
    where "interleave (replicate (Suc n) 0) [m] (w s) = ([Done (fst (run m (w s)))], snd (run m (w s)))"
    by auto
  then show ?case
    by (intro exI [of _ n]) (simp add: interleave_step interleave_done interleave_no_turn del: interleave.simps)
next
  case (Await m)
  from Await [of s] obtain n
    where "interleave (replicate (Suc n) 0) [m] s = ([Done (fst (run m s))], snd (run m s))"
    by auto
  then show ?case
    by (intro exI [of _ "Suc n"]) (simp add: interleave_step interleave_done interleave_no_turn del: interleave.simps)
qed

lemmas run_simps =
  run_ret run_throw run_gets run_modify run_bnd run_try_catch run_await run_on_trace

subsection \<open>What each operation does\<close>

text \<open>
  Every function of the worker client returns normally and appends exactly one
  request to the trace.
\<close>

lemma isHealthy_eq:
  "run (isHealthy e) tr =
     (Inr (case fetch e tr Health of Network_error err \<Rightarrow> False | Response ok body \<Rightarrow> ok),
      tr @ [Http Health (fetch e tr Health)])"
  by (simp add: isHealthy_def run_simps do_fetch_def split: reply.splits)

lemma sessionInit_eq:
  "run (sessionInit e sid p q) tr =
     (Inr (case fetch e tr (Sessions_init sid p q) of
             Response True (Inr d) \<Rightarrow> Some d | _ \<Rightarrow> None),
      tr @ [Http (Sessions_init sid p q) (fetch e tr (Sessions_init sid p q))])"
  by (simp add: sessionInit_def run_simps do_fetch_def response_json_def
      split: reply.splits sum.splits bool.splits)

lemma sendObservation_eq:
  "run (sendObservation e sid t i out cwd) tr =
     (Inr (), tr @ [Http (Sessions_observations sid t i out cwd)
                      (fetch e tr (Sessions_observations sid t i out cwd))])"
  by (simp add: sendObservation_def run_simps do_fetch_def split: reply.splits)

lemma summarize_eq:
  "run (summarize e sid u a) tr =
     (Inr (), tr @ [Http (Sessions_summarize sid u a) (fetch e tr (Sessions_summarize sid u a))])"
  by (simp add: summarize_def run_simps do_fetch_def split: reply.splits)

lemma completeSession_eq:
  "run (completeSession e sid) tr =
     (Inr (), tr @ [Http (Sessions_complete sid) (fetch e tr (Sessions_complete sid))])"
  by (simp add: completeSession_def run_simps do_fetch_def split: reply.splits)

lemma getContext_eq:
  "run (getContext e p) tr =
     (Inr (case fetch e tr (Context_inject p) of
             Response True (Inr d) \<Rightarrow> context_of_data d | _ \<Rightarrow> None),
      tr @ [Http (Context_inject p) (fetch e tr (Context_inject p))])"
  by (simp add: getContext_def run_simps do_fetch_def response_json_def
      split: reply.splits sum.splits bool.splits)

lemma search_eq:
  "run (search e q p) tr =
     (Inr (case fetch e tr (Search q p) of
             Network_error err \<Rightarrow> ''Error performing search: '' @ exn_to_string err
           | Response ok body \<Rightarrow>
               (if \<not> ok then ''Search failed''
                else case body of
                       Inl err \<Rightarrow> ''Error performing search: '' @ exn_to_string err
                     | Inr d \<Rightarrow> JSON_stringify d)),
      tr @ [Http (Search q p) (fetch e tr (Search q p))])"
  by (simp add: search_def run_simps do_fetch_def response_json_def
      split: reply.splits sum.splits bool.splits)

lemma toast_eq: "run (toast e m v d) s = (Inr (), s\<lparr>trace := trace s @ [Toast m v d]\<rparr>)"
  by (simp add: toast_def run_simps showToast_def split: option.splits)

lemma sendStatusMessage_eq:
  "run (sendStatusMessage e sid txt) s =
     (Inr (), s\<lparr>trace := trace s @
        (if client_session_prompt e (trace s) sid txt = None then [Session_prompt sid txt]
         else [Session_prompt sid txt, Toast (slice 200 txt) Info 3000])\<rparr>)"
  by (simp add: sendStatusMessage_def run_simps session_prompt_def toast_eq
      split: option.splits)

lemma getCachedContext_eq:
  "run (getCachedContext e c) s =
     (case contextCache s of
        Some v \<Rightarrow> (Inr v, s)
      | None \<Rightarrow>
          (Inr (case fetch e (trace s) (Context_inject (projectName c)) of
                  Response True (Inr d) \<Rightarrow> context_of_data d | _ \<Rightarrow> None),
           s\<lparr>trace := trace s @ [Http (Context_inject (projectName c))
                                   (fetch e (trace s) (Context_inject (projectName c)))],
             contextCache := Some (case fetch e (trace s) (Context_inject (projectName c)) of
                  Response True (Inr d) \<Rightarrow> context_of_data d | _ \<Rightarrow> None)\<rparr>))"
  by (simp add: getCachedContext_def run_simps getContext_eq split: option.splits)

lemma checkWorkerAndToast_eq:
  "run (checkWorkerAndToast e c) s =
     (Inr (workerHealthy (toasted e c (probed e s)) = Some True), toasted e c (probed e s))"
  by (simp add: checkWorkerAndToast_def run_simps isHealthy_eq toast_eq probed_def toasted_def
      split: option.splits)

lemma ensureSessionInit_eq:
  "run (ensureSessionInit e c sid p) s =
     (if sid \<in> initializedSessions s then (Inr True, s)
      else if workerHealthy (toasted e c (probed e s)) \<noteq> Some True
      then (Inr False, toasted e c (probed e s))
      else (Inr True,
            (toasted e c (probed e s))
              \<lparr>trace := trace (toasted e c (probed e s)) @
                 [Http (Sessions_init sid (projectName c)
                          (case truthy_value p of Some x \<Rightarrow> x | None \<Rightarrow> ''SESSION_START''))
                    (fetch e (trace (toasted e c (probed e s)))
                       (Sessions_init sid (projectName c)
                          (case truthy_value p of Some x \<Rightarrow> x | None \<Rightarrow> ''SESSION_START'')))],
               initializedSessions := insert sid (initializedSessions (toasted e c (probed e s))),
               currentSessionId := Some sid\<rparr>))"
  by (simp add: ensureSessionInit_def run_simps checkWorkerAndToast_eq sessionInit_eq)

lemma probed_frame:
  "contextCache (probed e s) = contextCache s"
  "initializedSessions (probed e s) = initializedSessions s"
  "initToastShown (probed e s) = initToastShown s"
  by (simp_all add: probed_def split: option.splits)

lemma toasted_frame:
  "contextCache (toasted e c s) = contextCache s"
  "initializedSessions (toasted e c s) = initializedSessions s"
  "initToastShown (toasted e c s)"
  by (simp_all add: toasted_def)





lemma truthy_value_None: "\<not> truthy x \<Longrightarrow> truthy_value x = None"
  by (simp add: truthy_value_def)


lemma session_idle_other: "event_type ev \<noteq> ''session.idle'' \<Longrightarrow> session_idle e ev = ret ()"
  by (simp add: session_idle_def)

lemma event_hook_not_invalidating:
  assumes "\<not> invalidates_cache (Event ev)"
  shows "event_hook e c ev = session_idle e ev"
proof (cases "event_type ev = ''session.created''")
  case True
  with assms have "truthy_value (info_id ev) = None"
    by (simp add: invalidates_cache_def truthy_value_None)
  with True show ?thesis
    by (simp add: event_hook_def session_idle_other)
next
  case False
  then show ?thesis by (simp add: event_hook_def)
qed

lemma event_hook_created_eq:
  assumes "event_type ev = ''session.created''" and "info_id ev = Some sid" and "sid \<noteq> []"
  shows "run (event_hook e c ev) s =
     (Inr (), toasted e c (probed e (s\<lparr>currentSessionId := Some sid, contextCache := None\<rparr>)))"
  using assms
  by (simp add: event_hook_def truthy_value_def truthy_def run_simps
      checkWorkerAndToast_eq session_idle_def)

lemma scan_back_rev:
  "scan_back r (rev ms) d =
     last (d # map (\<lambda>m. extractTextFromParts (parts m)) (filter (\<lambda>m. role m = r) ms))"
  by (induction ms rule: rev_induct) simp_all

lemma session_idle_eq:
  assumes "event_type ev = ''session.idle''"
    and "truthy_value (or_else (event_sessionID ev) (currentSessionId s)) = Some sid"
    and "client_session_messages e (trace s) sid = Inr (Some ms)"
  shows "run (session_idle e ev) s =
     (Inr (), s\<lparr>trace := trace s @
        [Session_messages sid,
         Http (Sessions_summarize sid (scan_back ''user'' (rev ms) []) (scan_back ''assistant'' (rev ms) []))
           (fetch e (trace s @ [Session_messages sid])
              (Sessions_summarize sid (scan_back ''user'' (rev ms) []) (scan_back ''assistant'' (rev ms) []))),
         Http (Sessions_complete sid)
           (fetch e (trace s @ [Session_messages sid,
               Http (Sessions_summarize sid (scan_back ''user'' (rev ms) []) (scan_back ''assistant'' (rev ms) []))
                 (fetch e (trace s @ [Session_messages sid])
                   (Sessions_summarize sid (scan_back ''user'' (rev ms) []) (scan_back ''assistant'' (rev ms) [])))])
              (Sessions_complete sid)),
         Toast ''Session summarized'' Success 2000]\<rparr>)"
  using assms
  by (simp add: session_idle_def run_simps session_messages_def
      summarize_eq completeSession_eq toast_eq)

section \<open>Invariants of hook calls that do not overlap\<close>

lemma preserves_ret: "preserves I (ret x)"
  by (simp add: preserves_def run_ret)

lemma preserves_throw: "preserves I (throw x)"
  by (simp add: preserves_def run_throw)

lemma preserves_gets: "preserves I (gets f)"
  by (simp add: preserves_def run_gets)

lemma preserves_bnd:
  assumes "preserves I m" and "\<And>x. preserves I (f x)"
  shows "preserves I (bnd m f)"
proof -
  have "I (snd (run (bnd m f) s))" if "I s" for s
  proof (cases "run m s")
    case (Pair r s')
    with assms(1) that have "I s'" by (auto simp: preserves_def dest: spec [of _ s])
    with assms(2) Pair show ?thesis
      by (cases r) (auto simp: run_bnd preserves_def)
  qed
  then show ?thesis by (simp add: preserves_def)
qed

lemma preserves_try_catch:
  assumes "preserves I m" and "\<And>x. preserves I (h x)"
  shows "preserves I (try_catch m h)"
proof -
  have "I (snd (run (try_catch m h) s))" if "I s" for s
  proof (cases "run m s")
    case (Pair r s')
    with assms(1) that have "I s'" by (auto simp: preserves_def dest: spec [of _ s])
    with assms(2) Pair show ?thesis
      by (cases r) (auto simp: run_try_catch preserves_def)
  qed
  then show ?thesis by (simp add: preserves_def)
qed

lemma preserves_await: "preserves I m \<Longrightarrow> preserves I (await m)"
  by (simp add: preserves_def run_await)

lemma preserves_forget: "preserves I m \<Longrightarrow> preserves I (forget m)"
  unfolding forget_def by (intro preserves_bnd preserves_ret)

lemma preserves_if:
  "preserves I a \<Longrightarrow> preserves I b \<Longrightarrow> preserves I (if t then a else b)"
  by simp

lemma preserves_case_option:
  "preserves I a \<Longrightarrow> (\<And>x. preserves I (f x)) \<Longrightarrow> preserves I (case v of None \<Rightarrow> a | Some x \<Rightarrow> f x)"
  by (cases v) simp_all

lemma preserves_appends: "appends A m \<Longrightarrow> absorbs I A \<Longrightarrow> preserves I m"
  unfolding appends_def absorbs_def preserves_def by metis

lemma appends_toast:
  "\<not> is_init_toast c (Toast m v d) \<Longrightarrow> appends (harmless c) (toast e m v d)"
  unfolding appends_def
  by (intro allI exI [of _ "[Toast m v d]"])
     (simp add: toast_eq harmless_def is_health_probe_def is_context_fetch_def)

lemma appends_sendStatusMessage: "appends (harmless c) (sendStatusMessage e sid txt)"
  unfolding appends_def
proof
  fix s :: tracker
  let ?evs = "if client_session_prompt e (trace s) sid txt = None then [Session_prompt sid txt]
         else [Session_prompt sid txt, Toast (slice 200 txt) Info 3000]"
  have "snd (run (sendStatusMessage e sid txt) s) = s\<lparr>trace := trace s @ ?evs\<rparr> \<and> list_all (harmless c) ?evs"
    by (simp add: sendStatusMessage_eq harmless_def is_health_probe_def is_context_fetch_def
        is_init_toast_def)
  then show "\<exists>evs. snd (run (sendStatusMessage e sid txt) s) = s\<lparr>trace := trace s @ evs\<rparr> \<and> list_all (harmless c) evs"
    by blast
qed

lemma appends_on_trace:
  assumes "\<And>tr. \<exists>ev. snd (run m tr) = tr @ [ev] \<and> A ev"
  shows "appends A (on_trace m)"
  unfolding appends_def
proof
  fix s :: tracker
  from assms obtain ev where ev: "snd (run m (trace s)) = trace s @ [ev]" "A ev" by blast
  then have "snd (run (on_trace m) s) = s\<lparr>trace := trace s @ [ev]\<rparr> \<and> list_all A [ev]"
    by (cases "run m (trace s)") (simp add: run_on_trace)
  then show "\<exists>evs. snd (run (on_trace m) s) = s\<lparr>trace := trace s @ evs\<rparr> \<and> list_all A evs" by blast
qed

lemma appends_sessionInit: "appends (harmless c) (on_trace (sessionInit e sid p q))"
  by (rule appends_on_trace)
     (simp add: sessionInit_eq harmless_def is_health_probe_def is_context_fetch_def is_init_toast_def)

lemma appends_sendObservation: "appends (harmless c) (on_trace (sendObservation e sid t i out cwd))"
  by (rule appends_on_trace)
     (simp add: sendObservation_eq harmless_def is_health_probe_def is_context_fetch_def is_init_toast_def)

lemma appends_summarize: "appends (harmless c) (on_trace (summarize e sid u a))"
  by (rule appends_on_trace)
     (simp add: summarize_eq harmless_def is_health_probe_def is_context_fetch_def is_init_toast_def)

lemma appends_completeSession: "appends (harmless c) (on_trace (completeSession e sid))"
  by (rule appends_on_trace)
     (simp add: completeSession_eq harmless_def is_health_probe_def is_context_fetch_def is_init_toast_def)

lemma appends_search: "appends (harmless c) (on_trace (search e q p))"
  by (rule appends_on_trace)
     (simp add: search_eq harmless_def is_health_probe_def is_context_fetch_def is_init_toast_def)

lemma appends_session_messages: "appends (harmless c) (on_trace (session_messages e sid))"
  by (rule appends_on_trace)
     (simp add: session_messages_def harmless_def is_health_probe_def is_context_fetch_def is_init_toast_def)

lemmas preserves_rules =
  preserves_ret preserves_throw preserves_gets preserves_bnd preserves_try_catch
  preserves_await preserves_if preserves_case_option

lemmas harmless_calls =
  appends_sendStatusMessage appends_sessionInit appends_sendObservation appends_summarize
  appends_completeSession appends_search appends_session_messages

text \<open>
  A property that the helper operations preserve and that harmless effects do not
  disturb is preserved by every hook.
\<close>

lemma preserves_session_idle:
  assumes A: "absorbs I (harmless c)"
  shows "preserves I (session_idle e ev)"
proof -
  note calls = harmless_calls [where c = c, THEN preserves_appends, OF A]
  have t: "preserves I (toast e ''Session summarized'' Success 2000)"
    by (rule preserves_appends [OF appends_toast A]) (simp add: is_init_toast_def)
  show ?thesis
    unfolding session_idle_def by (intro preserves_rules calls t)
qed

lemma preserves_command_execute_before:
  assumes A: "absorbs I (harmless c)" and B: "preserves I (checkWorkerAndToast e c)"
    "preserves I (getCachedContext e c)"
  shows "preserves I (command_execute_before e c command sessionID)"
proof -
  note calls = harmless_calls [where c = c, THEN preserves_appends, OF A]
  show ?thesis
    unfolding command_execute_before_def by (intro preserves_rules calls B)
qed

lemma preserves_event_hook:
  assumes A: "absorbs I (harmless c)" and B: "preserves I (checkWorkerAndToast e c)"
    "\<And>x. preserves I (modify (\<lambda>s. s\<lparr>currentSessionId := x\<rparr>))"
    "preserves I (modify (\<lambda>s. s\<lparr>contextCache := None\<rparr>))"
  shows "preserves I (event_hook e c ev)"
  unfolding event_hook_def
  by (intro preserves_rules preserves_session_idle [OF A] B)

lemma preserves_chat_message:
  assumes "\<And>sid p. preserves I (ensureSessionInit e c sid p)"
  shows "preserves I (chat_message e c sessionID ps)"
  unfolding chat_message_def
  by (intro preserves_rules assms)

lemma preserves_system_transform:
  assumes "preserves I (checkWorkerAndToast e c)" "preserves I (getCachedContext e c)"
    "\<And>sid p. preserves I (ensureSessionInit e c sid p)"
  shows "preserves I (system_transform e c sessionID system)"
  unfolding system_transform_def
  by (intro preserves_rules assms)

lemma preserves_tool_execute_after:
  assumes A: "absorbs I (harmless c)" and B: "\<And>sid p. preserves I (ensureSessionInit e c sid p)"
  shows "preserves I (tool_execute_after e c sessionID tool args output)"
proof -
  note calls = harmless_calls [where c = c, THEN preserves_appends, OF A]
  show ?thesis
    unfolding tool_execute_after_def by (intro preserves_rules calls B)
qed

lemma preserves_mem_search:
  assumes A: "absorbs I (harmless c)"
  shows "preserves I (mem_search e c query)"
  unfolding mem_search_def
  by (intro preserves_await harmless_calls [where c = c, THEN preserves_appends, OF A])

lemma after_hook_preserves:
  assumes A: "absorbs I (harmless c)"
    and B: "preserves I (checkWorkerAndToast e c)"
    and C: "preserves I (getCachedContext e c)"
    and D: "\<And>sid p. preserves I (ensureSessionInit e c sid p)"
    and E: "\<And>x. preserves I (modify (\<lambda>s. s\<lparr>currentSessionId := x\<rparr>))"
    and F: "invalidates_cache h \<Longrightarrow> preserves I (modify (\<lambda>s. s\<lparr>contextCache := None\<rparr>))"
    and s: "I s"
  shows "I (after_hook e c h s)"
proof -
  have "preserves I (hook_task e c h)"
  proof (cases h)
    case Config
    then show ?thesis by (simp add: preserves_ret)
  next
    case (Command_execute_before command sessionID)
    with preserves_command_execute_before [OF A B C, of command sessionID] show ?thesis
      by simp
  next
    case (Event ev)
    show ?thesis
    proof (cases "invalidates_cache h")
      case True
      with preserves_event_hook [OF A B E F, of ev] Event show ?thesis
        by simp
    next
      case False
      with Event have "event_hook e c ev = session_idle e ev"
        by (simp add: event_hook_not_invalidating)
      with preserves_session_idle [OF A, of e ev] Event show ?thesis
        by simp
    qed
  next
    case (Chat_message sessionID ps)
    with preserves_chat_message [of I e c sessionID ps] D show ?thesis
      by simp
  next
    case (System_transform sessionID system)
    with preserves_system_transform [OF B C, of sessionID system] D show ?thesis
      by (simp add: preserves_forget)
  next
    case (Tool_execute_after sessionID tool args out)
    with preserves_tool_execute_after [OF A, of e sessionID tool args out] D show ?thesis
      by simp
  next
    case (Mem_search query)
    with preserves_mem_search [OF A, of e query] show ?thesis
      by (simp add: preserves_forget)
  qed
  with s show ?thesis
    by (simp add: preserves_def after_hook_def)
qed

lemma after_hooks_preserves:
  assumes A: "absorbs I (harmless c)"
    and B: "preserves I (checkWorkerAndToast e c)"
    and C: "preserves I (getCachedContext e c)"
    and D: "\<And>sid p. preserves I (ensureSessionInit e c sid p)"
    and E: "\<And>x. preserves I (modify (\<lambda>s. s\<lparr>currentSessionId := x\<rparr>))"
    and F: "\<And>h. h \<in> set hs \<Longrightarrow> invalidates_cache h \<Longrightarrow>
              preserves I (modify (\<lambda>s. s\<lparr>contextCache := None\<rparr>))"
    and s: "I s"
  shows "I (after_hooks e c hs s)"
  using F s
proof (induction hs arbitrary: s)
  case Nil
  then show ?case by simp
next
  case (Cons h hs)
  have "I (after_hook e c h s)"
  proof (rule after_hook_preserves [OF A B C D E _ Cons.prems(2)])
    assume "invalidates_cache h"
    then show "preserves I (modify (\<lambda>s. s\<lparr>contextCache := None\<rparr>))"
      using Cons.prems(1) [of h] by simp
  qed
  moreover have "preserves I (modify (\<lambda>s. s\<lparr>contextCache := None\<rparr>))"
    if "h' \<in> set hs" "invalidates_cache h'" for h'
    using Cons.prems(1) [of h'] that by simp
  ultimately have "I (after_hooks e c hs (after_hook e c h s))"
    using Cons.IH by blast
  then show ?case by simp
qed

lemma harmless_filters:
  assumes "list_all (harmless c) evs"
  shows "filter is_health_probe evs = []" "filter (is_init_toast c) evs = []"
    "filter is_context_fetch evs = []"
  using assms by (auto simp: list_all_iff harmless_def filter_empty_conv)



lemma toast_inv:
  assumes "initToastShown s"
  shows "initToastShown (after_hooks e c hs s)
     \<and> filter (is_init_toast c) (trace (after_hooks e c hs s)) = filter (is_init_toast c) (trace s)"
proof -
  let ?I = "\<lambda>t. initToastShown t \<and> filter (is_init_toast c) (trace t) = filter (is_init_toast c) (trace s)"
  have "?I (after_hooks e c hs s)"
  proof (rule after_hooks_preserves [where I = ?I and c = c])
    show "absorbs ?I (harmless c)"
      by (simp add: absorbs_def harmless_filters)
    show "preserves ?I (checkWorkerAndToast e c)"
      by (simp add: preserves_def checkWorkerAndToast_eq probed_def toasted_def is_init_toast_def
          split: option.splits)
    show "preserves ?I (getCachedContext e c)"
      by (simp add: preserves_def getCachedContext_eq is_init_toast_def split: option.splits)
    show "preserves ?I (ensureSessionInit e c sid p)" for sid p
      by (simp add: preserves_def ensureSessionInit_eq probed_def toasted_def is_init_toast_def
          split: option.splits)
    show "preserves ?I (modify (\<lambda>s. s\<lparr>currentSessionId := x\<rparr>))" for x
      by (simp add: preserves_def run_modify)
    show "preserves ?I (modify (\<lambda>s. s\<lparr>contextCache := None\<rparr>))" for h :: hook_call
      by (simp add: preserves_def run_modify)
    show "?I s" using assms by simp
  qed
  then show ?thesis by simp
qed

lemma toasts_once:
  "length (filter (is_init_toast c) (trace (after_hooks e c hs init_tracker))) \<le> 1"
proof -
  let ?I = "\<lambda>t. (\<not> initToastShown t \<longrightarrow> filter (is_init_toast c) (trace t) = [])
              \<and> length (filter (is_init_toast c) (trace t)) \<le> 1"
  have "?I (after_hooks e c hs init_tracker)"
  proof (rule after_hooks_preserves [where I = ?I and c = c])
    show "absorbs ?I (harmless c)"
      by (simp add: absorbs_def harmless_filters)
    show "preserves ?I (checkWorkerAndToast e c)"
      by (auto simp: preserves_def checkWorkerAndToast_eq probed_def toasted_def is_init_toast_def
          split: option.splits)
    show "preserves ?I (getCachedContext e c)"
      by (simp add: preserves_def getCachedContext_eq is_init_toast_def split: option.splits)
    show "preserves ?I (ensureSessionInit e c sid p)" for sid p
      by (auto simp: preserves_def ensureSessionInit_eq probed_def toasted_def is_init_toast_def
          split: option.splits)
    show "preserves ?I (modify (\<lambda>s. s\<lparr>currentSessionId := x\<rparr>))" for x
      by (simp add: preserves_def run_modify)
    show "preserves ?I (modify (\<lambda>s. s\<lparr>contextCache := None\<rparr>))" for h :: hook_call
      by (simp add: preserves_def run_modify)
    show "?I init_tracker" by (simp add: init_tracker_def)
  qed
  then show ?thesis by simp
qed






subsection \<open>The concrete inputs evaluated\<close>

lemma projectName_example: "projectName example_ctx = ''repo''"
  by (simp add: projectName_def example_ctx_def truthy_value_def truthy_def findLast_def)




subsection \<open>Overlapping calls evaluated\<close>






section \<open>The claims\<close>

text \<open>
  In the statements below \<open>run\<close> is a call that no other call overlaps, and
  \<open>after_hooks\<close> a sequence of hook calls of which each has ended before the next
  starts. Where a claim fails for calls that overlap, its counterexample gives the
  schedule.
\<close>

text \<open>
  C1. The claim: a session identifier enters \<open>initializedSessions\<close> only when the remote
  \<open>sessionInit\<close> call succeeded, and a failed attempt leaves it absent so that a later
  call retries. The code does not do this: \<open>WorkerClient.sessionInit\<close> swallows every
  failure and returns \<open>null\<close>, so the \<open>catch\<close> branch of \<open>ensureSessionInit\<close> is never
  taken. With a healthy worker that answers the initialisation request with a non-OK
  status, \<open>sessionInit\<close> returns \<open>null\<close>, yet \<open>ensureSessionInit\<close> returns \<open>true\<close>, the
  identifier is in \<open>initializedSessions\<close>, and the next call returns at once without
  another request.
\<close>

theorem ensureSessionInit_marks_failed_init:
  "fst (run (sessionInit init_failing_env ''s1'' ''repo'' ''fix the bug'')
          [Http Health (Response True (Inr (JObj []))),
           Toast (memory_active_text ''repo'') Success 3000]) = Inr None
   \<and> run (ensureSessionInit init_failing_env example_ctx ''s1'' (Some ''fix the bug'')) init_tracker =
       (Inr True, failed_init_tracker)
   \<and> ''s1'' \<in> initializedSessions failed_init_tracker
   \<and> run (ensureSessionInit init_failing_env example_ctx ''s1'' (Some ''fix the bug''))
         failed_init_tracker = (Inr True, failed_init_tracker)"
  by (simp add: sessionInit_eq ensureSessionInit_eq probed_def toasted_def init_tracker_def
      init_failing_env_def projectName_example truthy_value_def truthy_def
      failed_init_tracker_def)







text \<open>
  C4. When a \<open>session.idle\<close> event fires for a session whose history has the user
  messages a, b and the assistant messages x, y in order (interleaved in any way, with
  messages of other roles allowed), the handler reads the history, calls \<open>summarize\<close>
  with b and y, then \<open>completeSession\<close> exactly once, then shows the success toast,
  and returns normally.
\<close>

theorem session_idle_summarizes_last_messages:
  assumes "event_type ev = ''session.idle''"
    and "truthy_value (or_else (event_sessionID ev) (currentSessionId s)) = Some sid"
    and "client_session_messages e (trace s) sid = Inr (Some ms)"
    and "map (\<lambda>m. extractTextFromParts (parts m)) (filter (\<lambda>m. role m = ''user'') ms) = [''a'', ''b'']"
    and "map (\<lambda>m. extractTextFromParts (parts m)) (filter (\<lambda>m. role m = ''assistant'') ms) = [''x'', ''y'']"
  shows "\<exists>r1 r2. run (event_hook e c ev) s =
     (Inr (), s\<lparr>trace := trace s @
        [Session_messages sid,
         Http (Sessions_summarize sid ''b'' ''y'') r1,
         Http (Sessions_complete sid) r2,
         Toast ''Session summarized'' Success 2000]\<rparr>)"
proof -
  have "event_hook e c ev = session_idle e ev"
    using assms(1) by (simp add: event_hook_def)
  moreover have "scan_back ''user'' (rev ms) [] = ''b''" "scan_back ''assistant'' (rev ms) [] = ''y''"
    using assms(4,5) by (simp_all add: scan_back_rev)
  ultimately show ?thesis
    using session_idle_eq [OF assms(1-3)] by auto
qed

theorem session_idle_summarizes_last_messages_witness:
  "event_type session_idle_s1 = ''session.idle''
   \<and> truthy_value (or_else (event_sessionID session_idle_s1) (currentSessionId init_tracker)) = Some ''s1''
   \<and> client_session_messages online_env (trace init_tracker) ''s1'' = Inr (Some example_history)
   \<and> map (\<lambda>m. extractTextFromParts (parts m)) (filter (\<lambda>m. role m = ''user'') example_history)
       = [''a'', ''b'']
   \<and> map (\<lambda>m. extractTextFromParts (parts m)) (filter (\<lambda>m. role m = ''assistant'') example_history)
       = [''x'', ''y'']
   \<and> (\<exists>r1 r2. run (event_hook online_env example_ctx session_idle_s1) init_tracker =
        (Inr (), init_tracker\<lparr>trace := trace init_tracker @
           [Session_messages ''s1'',
            Http (Sessions_summarize ''s1'' ''b'' ''y'') r1,
            Http (Sessions_complete ''s1'') r2,
            Toast ''Session summarized'' Success 2000]\<rparr>))"
proof -
  have h1: "event_type session_idle_s1 = ''session.idle''"
    by (simp add: session_idle_s1_def)
  have h2: "truthy_value (or_else (event_sessionID session_idle_s1) (currentSessionId init_tracker)) = Some ''s1''"
    by (simp add: session_idle_s1_def truthy_value_def or_else_def truthy_def)
  have h3: "client_session_messages online_env (trace init_tracker) ''s1'' = Inr (Some example_history)"
    by (simp add: online_env_def)
  have h4: "map (\<lambda>m. extractTextFromParts (parts m)) (filter (\<lambda>m. role m = ''user'') example_history)
       = [''a'', ''b'']"
    by (simp add: example_history_def text_message_def extractTextFromParts_def trim_def white_space_def starts_with_def)
  have h5: "map (\<lambda>m. extractTextFromParts (parts m)) (filter (\<lambda>m. role m = ''assistant'') example_history)
       = [''x'', ''y'']"
    by (simp add: example_history_def text_message_def extractTextFromParts_def trim_def white_space_def starts_with_def)
  show ?thesis
    by (intro conjI h1 h2 h3 h4 h5 session_idle_summarizes_last_messages [OF h1 h2 h3 h4 h5])
qed

text \<open>
  C5. When the body of the response to \<open>getContext\<close> is the JSON object \<open>{}\<close> or the
  JSON value \<open>null\<close>, \<open>getContext\<close> returns \<open>null\<close> (whatever the status of the
  response), never a string.
\<close>

theorem getContext_empty_payload_is_absent:
  assumes "fetch e tr (Context_inject project) = Response ok (Inr data)"
    and "data = JObj [] \<or> data = JNull"
  shows "fst (run (getContext e project) tr) = Inr None"
  using assms
  by (auto simp: getContext_eq context_of_data_def get_property_def JSON_stringify_def
      split: bool.splits)

theorem getContext_empty_payload_is_absent_witness:
  "fetch online_env [] (Context_inject ''repo'') = Response True (Inr (JObj []))
   \<and> (JObj [] = JObj [] \<or> JObj [] = JNull)
   \<and> fst (run (getContext online_env ''repo'') []) = Inr None"
proof -
  have h1: "fetch online_env [] (Context_inject ''repo'') = Response True (Inr (JObj []))"
    by (simp add: online_env_def)
  have h2: "JObj [] = JObj [] \<or> JObj [] = JNull"
    by simp
  show ?thesis
    by (intro conjI h1 h2 getContext_empty_payload_is_absent [OF h1 h2])
qed




text \<open>
  C7. For every sequence of \<open>session.created\<close> events that carry the same session
  identifier (a non-empty string: the handler ignores an event whose identifier is
  missing or empty), \<open>initializedSessions\<close> is as before, and the cache slot is
  uninitialised after the sequence as soon as it has one event; every prefix of such
  a sequence is such a sequence, so this holds after each occurrence.
\<close>

theorem session_created_invalidates_cache_only:
  assumes "\<forall>ev\<in>set evs. event_type ev = ''session.created'' \<and> info_id ev = Some sid"
    and "sid \<noteq> []"
  shows "initializedSessions (after_hooks e c (map Event evs) s) = initializedSessions s
     \<and> (evs \<noteq> [] \<longrightarrow> contextCache (after_hooks e c (map Event evs) s) = None)"
  using assms(1)
proof (induction evs arbitrary: s rule: rev_induct)
  case Nil
  then show ?case by simp
next
  case (snoc ev evs)
  have run: "after_hooks e c (hs @ [h]) t = after_hook e c h (after_hooks e c hs t)" for hs h t
    by (induction hs arbitrary: t) simp_all
  from snoc.prems have ev: "event_type ev = ''session.created''" "info_id ev = Some sid"
    by simp_all
  from snoc.prems have "\<forall>ev\<in>set evs. event_type ev = ''session.created'' \<and> info_id ev = Some sid"
    by simp
  from snoc.IH [OF this]
  have IH: "initializedSessions (after_hooks e c (map Event evs) s) = initializedSessions s"
    by (rule conjunct1)
  have "after_hooks e c (map Event (evs @ [ev])) s =
          snd (run (event_hook e c ev) (after_hooks e c (map Event evs) s))"
    by (simp add: run after_hook_def)
  then show ?case
    by (simp add: event_hook_created_eq [OF ev assms(2)] probed_frame toasted_frame IH)
qed

theorem session_created_invalidates_cache_only_witness:
  "event_type session_created_s1 = ''session.created''
   \<and> info_id session_created_s1 = Some ''s1''
   \<and> ''s1'' \<noteq> []
   \<and> initializedSessions (after_hooks online_env example_ctx
        (map Event [session_created_s1, session_created_s1])
        (init_tracker\<lparr>contextCache := Some (Some ''notes''), initializedSessions := {''s1''}\<rparr>))
       = {''s1''}
   \<and> contextCache (after_hooks online_env example_ctx
        (map Event [session_created_s1, session_created_s1])
        (init_tracker\<lparr>contextCache := Some (Some ''notes''), initializedSessions := {''s1''}\<rparr>))
       = None"
proof -
  have h1: "\<forall>ev\<in>set [session_created_s1, session_created_s1].
      event_type ev = ''session.created'' \<and> info_id ev = Some ''s1''"
    by (simp add: session_created_s1_def)
  have h2: "''s1'' \<noteq> []" by simp
  note t = session_created_invalidates_cache_only [OF h1 h2, of online_env example_ctx
      "init_tracker\<lparr>contextCache := Some (Some ''notes''), initializedSessions := {''s1''}\<rparr>"]
  have a: "initializedSessions (after_hooks online_env example_ctx
        (map Event [session_created_s1, session_created_s1])
        (init_tracker\<lparr>contextCache := Some (Some ''notes''), initializedSessions := {''s1''}\<rparr>))
       = {''s1''}"
    using t [THEN conjunct1] by simp
  have b: "contextCache (after_hooks online_env example_ctx
        (map Event [session_created_s1, session_created_s1])
        (init_tracker\<lparr>contextCache := Some (Some ''notes''), initializedSessions := {''s1''}\<rparr>))
       = None"
    by (rule t [THEN conjunct2, THEN mp]) simp
  have e1: "event_type session_created_s1 = ''session.created''"
    and e2: "info_id session_created_s1 = Some ''s1''"
    by (simp_all add: session_created_s1_def)
  show ?thesis
    by (intro conjI e1 e2 h2 a b)
qed

text \<open>
  C8. The start-up toast is shown once: any sequence of hook calls from the initial
  state shows it at most once; a call of \<open>checkWorkerAndToast\<close> made while
  \<open>initToastShown\<close> is unset (the first one) sets it and shows exactly one start-up
  toast, after which no sequence of hook calls shows another; and in any state where
  the flag is set no sequence of hook calls shows one.
\<close>

theorem init_toast_shown_once:
  "length (filter (is_init_toast c) (trace (after_hooks e c hs init_tracker))) \<le> 1
   \<and> (\<not> initToastShown s \<longrightarrow>
        initToastShown (snd (run (checkWorkerAndToast e c) s))
        \<and> length (filter (is_init_toast c) (trace (snd (run (checkWorkerAndToast e c) s))))
            = Suc (length (filter (is_init_toast c) (trace s)))
        \<and> filter (is_init_toast c) (trace (after_hooks e c hs (snd (run (checkWorkerAndToast e c) s))))
            = filter (is_init_toast c) (trace (snd (run (checkWorkerAndToast e c) s))))
   \<and> (initToastShown s \<longrightarrow>
        filter (is_init_toast c) (trace (after_hooks e c hs s)) = filter (is_init_toast c) (trace s))"
proof -
  have shown: "initToastShown (snd (run (checkWorkerAndToast e c) s))"
    by (simp add: checkWorkerAndToast_eq toasted_frame)
  have "length (filter (is_init_toast c) (trace (snd (run (checkWorkerAndToast e c) s))))
            = Suc (length (filter (is_init_toast c) (trace s)))" if "\<not> initToastShown s"
    using that
    by (simp add: checkWorkerAndToast_eq probed_def toasted_def is_init_toast_def
        split: option.splits)
  then show ?thesis
    using toasts_once [of c e hs] by (simp add: toast_inv shown)
qed

theorem init_toast_shown_once_witness:
  "\<not> initToastShown init_tracker
   \<and> initToastShown (snd (run (checkWorkerAndToast offline_env example_ctx) init_tracker))
   \<and> length (filter (is_init_toast example_ctx)
        (trace (snd (run (checkWorkerAndToast offline_env example_ctx) init_tracker)))) = Suc 0
   \<and> filter (is_init_toast example_ctx)
        (trace (after_hooks online_env example_ctx
           [Event session_created_s1, Chat_message (Some ''s1'') None, Event session_idle_s1]
           (snd (run (checkWorkerAndToast offline_env example_ctx) init_tracker))))
       = filter (is_init_toast example_ctx)
           (trace (snd (run (checkWorkerAndToast offline_env example_ctx) init_tracker)))"
proof -
  have h: "\<not> initToastShown init_tracker"
    by (simp add: init_tracker_def)
  note t = init_toast_shown_once [of example_ctx offline_env
      "[Event session_created_s1, Chat_message (Some ''s1'') None, Event session_idle_s1]"
      init_tracker, THEN conjunct2, THEN conjunct1, THEN mp, OF h]
  have n: "length (filter (is_init_toast example_ctx)
        (trace (snd (run (checkWorkerAndToast offline_env example_ctx) init_tracker)))) = Suc 0"
    using t [THEN conjunct2, THEN conjunct1] by (simp add: init_tracker_def)
  have "initToastShown (snd (run (checkWorkerAndToast offline_env example_ctx) init_tracker))"
    by (rule t [THEN conjunct1])
  from init_toast_shown_once [of example_ctx online_env
      "[Event session_created_s1, Chat_message (Some ''s1'') None, Event session_idle_s1]"
      "snd (run (checkWorkerAndToast offline_env example_ctx) init_tracker)",
      THEN conjunct2, THEN conjunct2, THEN mp, OF this]
  have later: "filter (is_init_toast example_ctx)
        (trace (after_hooks online_env example_ctx
           [Event session_created_s1, Chat_message (Some ''s1'') None, Event session_idle_s1]
           (snd (run (checkWorkerAndToast offline_env example_ctx) init_tracker))))
       = filter (is_init_toast example_ctx)
           (trace (snd (run (checkWorkerAndToast offline_env example_ctx) init_tracker)))" .
  show ?thesis
    by (intro conjI h t [THEN conjunct1] n later)
qed

text \<open>
  C9. \<open>search\<close> always returns a string and never throws: a non-OK status gives
  \<open>Search failed\<close>, an exception of the transport gives \<open>Error performing search:\<close>
  followed by the error, and an OK response with a JSON body gives the body serialised.
\<close>

theorem search_returns_string:
  "(\<exists>str. fst (run (search e q p) tr) = Inr str)
   \<and> (\<forall>body. fetch e tr (Search q p) = Response False body
         \<longrightarrow> fst (run (search e q p) tr) = Inr ''Search failed'')
   \<and> (\<forall>err. fetch e tr (Search q p) = Network_error err
         \<longrightarrow> fst (run (search e q p) tr) = Inr (''Error performing search: '' @ exn_to_string err))
   \<and> (\<forall>data. fetch e tr (Search q p) = Response True (Inr data)
         \<longrightarrow> fst (run (search e q p) tr) = Inr (JSON_stringify data))"
  by (simp add: search_eq)

theorem search_returns_string_witness:
  "fst (run (search offline_env ''auth bug'' ''repo'') []) =
     Inr ''Error performing search: TypeError: fetch failed''
   \<and> fst (run (search init_failing_env ''auth bug'' ''repo'') []) = Inr ''Search failed''
   \<and> fst (run (search online_env ''auth bug'' ''repo'') []) = Inr ''[]''"
  using search_returns_string [of offline_env "''auth bug''" "''repo''" "[]"]
    search_returns_string [of init_failing_env "''auth bug''" "''repo''" "[]"]
    search_returns_string [of online_env "''auth bug''" "''repo''" "[]"]
  by (simp add: offline_env_def init_failing_env_def online_env_def JSON_stringify_def)




end
